theory Spec2Isabelle
  imports Complex_Main "HOL-Library.Word" "HOL-Library.Log_Nat"
begin

unbundle bit_operations_syntax

section \<open>Data model of mome\_rath/models.py\<close>

text \<open>
  A row of the auth user table. Only the columns the badge code reads are kept:
  the primary key (compared by \<open>filter(user=...)\<close>), the username and the
  superuser flag.
\<close>

record user =
  user_pk :: nat
  username :: string
  superuser_flag :: bool

text \<open>
  What a view passes as the acting user: Django's \<open>AnonymousUser\<close> object or a
  \<open>User\<close> row. \<open>is_anonymous()\<close> is true for the first and false for the second;
  \<open>is_superuser\<close> is the constant False on \<open>AnonymousUser\<close> and the column on a row.
  An absent actor (Python's \<open>None\<close>) is \<open>None\<close> of \<open>actor option\<close>.
\<close>

datatype actor = AnonymousUser | User user

fun is_anonymous :: "actor \<Rightarrow> bool" where
  "is_anonymous AnonymousUser = True"
| "is_anonymous (User u) = False"

fun is_superuser :: "actor \<Rightarrow> bool" where
  "is_superuser AnonymousUser = False"
| "is_superuser (User u) = superuser_flag u"

text \<open>
  A saved Badge object. \<open>awarding_prerequisite\<close> is the related Badge object the
  foreign key resolves to, or \<open>None\<close> when the column is NULL.
\<close>

datatype badge = Badge
  (badge_pk: nat)
  (title: string)
  (slug: string)
  (badge_description: string)
  (awarding_prerequisite: "badge option")
  (nominations_accepted: bool)
  (badge_creator: "nat option")

text \<open>
  A row of the Award table. \<open>badge_id\<close>, \<open>user_id\<close> and \<open>creator_id\<close> are the
  foreign-key columns; \<open>creator_id\<close> is nullable.
\<close>

record award =
  award_pk :: nat
  award_description :: string
  badge_id :: nat
  user_id :: nat
  creator_id :: "nat option"
  award_created :: nat
  award_modified :: nat

text \<open>
  The store: the Award and Badge tables in insertion order, the next primary key
  the Award table hands out, and the clock read by \<open>auto_now\<close> columns. The Award
  table has no uniqueness constraint on (badge, user).
\<close>

record db =
  awards :: "award list"
  badges :: "badge list"
  award_seq :: nat
  clock :: nat

datatype error =
  BadgeAwardNotAllowedException
  | BadgeAlreadyAwardedException
  | DoesNotExist
  | MultipleObjectsReturned
  | IntegrityError
  | IndexError
  | ZeroDivisionError

section \<open>Badge.is\_awarded\_to and Badge.allows\_award\_to\<close>

text \<open>\<open>Award.objects.filter(user=user, badge=self)\<close>: the rows whose two
  foreign keys are the primary keys of the given objects.\<close>

definition award_filter :: "db \<Rightarrow> user \<Rightarrow> badge \<Rightarrow> award list" where
  "award_filter d u b =
     filter (\<lambda>a. user_id a = user_pk u \<and> badge_id a = badge_pk b) (awards d)"

definition is_awarded_to :: "db \<Rightarrow> badge \<Rightarrow> user \<Rightarrow> bool" where
  "is_awarded_to d self u = (length (award_filter d u self) > 0)"

definition allows_award_to :: "db \<Rightarrow> badge \<Rightarrow> actor option \<Rightarrow> bool" where
  "allows_award_to d self usr =
     (case usr of
        None \<Rightarrow> False
      | Some AnonymousUser \<Rightarrow> False
      | Some (User u) \<Rightarrow>
          if is_superuser (User u) then True
          else (case awarding_prerequisite self of
                  None \<Rightarrow> False
                | Some p \<Rightarrow> if is_awarded_to d p u then True else False))"

section \<open>Badge.award\_to\<close>

text \<open>\<open>Award.objects.get(user=awardee, badge=self)\<close>: the single matching row;
  no row raises \<open>DoesNotExist\<close>, more than one raises \<open>MultipleObjectsReturned\<close>.\<close>

definition award_get :: "db \<Rightarrow> user \<Rightarrow> badge \<Rightarrow> error + award" where
  "award_get d u b =
     (case award_filter d u b of
        [] \<Rightarrow> Inl DoesNotExist
      | [a] \<Rightarrow> Inr a
      | _ # _ # _ \<Rightarrow> Inl MultipleObjectsReturned)"

text \<open>The value stored in the nullable \<open>creator\<close> foreign key for an awarder.
  \<open>award_to\<close> reaches \<open>create\<close> only with an authenticated awarder.\<close>

fun creator_fk :: "actor option \<Rightarrow> nat option" where
  "creator_fk (Some (User u)) = Some (user_pk u)"
| "creator_fk _ = None"

text \<open>\<open>Award.objects.create(user=awardee, badge=self, creator=awarder,
  description=description)\<close>: a new row with the next primary key and both
  timestamps set from the clock, appended to the table.\<close>

definition award_create :: "db \<Rightarrow> user \<Rightarrow> badge \<Rightarrow> actor option \<Rightarrow> string \<Rightarrow> award \<times> db" where
  "award_create d u b awarder description =
     (let a = \<lparr>award_pk = award_seq d, award_description = description,
                badge_id = badge_pk b, user_id = user_pk u,
                creator_id = creator_fk awarder,
                award_created = clock d, award_modified = clock d\<rparr>
      in (a, d\<lparr>awards := awards d @ [a], award_seq := Suc (award_seq d)\<rparr>))"

text \<open>The result is the raised exception or the returned Award, paired with the
  store after the call.\<close>

definition award_to ::
  "db \<Rightarrow> badge \<Rightarrow> user \<Rightarrow> actor option \<Rightarrow> string \<Rightarrow> bool \<Rightarrow> (error + award) \<times> db" where
  "award_to d self awardee awarder description raise_already_awarded =
     (if \<not> allows_award_to d self awarder then (Inl BadgeAwardNotAllowedException, d)
      else if is_awarded_to d self awardee then
        (if raise_already_awarded then (Inl BadgeAlreadyAwardedException, d)
         else (award_get d awardee self, d))
      else (case award_create d awardee self awarder description of
              (a, d') \<Rightarrow> (Inr a, d')))"

text \<open>Users, badges and stores used to instantiate the theorems below.\<close>

abbreviation admin :: user where
  "admin \<equiv> \<lparr>user_pk = 1, username = ''admin'', superuser_flag = True\<rparr>"

abbreviation alice :: user where
  "alice \<equiv> \<lparr>user_pk = 2, username = ''alice'', superuser_flag = False\<rparr>"

abbreviation bob :: user where
  "bob \<equiv> \<lparr>user_pk = 3, username = ''bob'', superuser_flag = False\<rparr>"

abbreviation creator_b :: badge where
  "creator_b \<equiv> Badge 1 ''Creator'' ''creator'' [] None True None"

abbreviation helper_b :: badge where
  "helper_b \<equiv> Badge 2 ''Helper'' ''helper'' [] (Some creator_b) True (Some 1)"

abbreviation award_row :: "nat \<Rightarrow> nat \<Rightarrow> nat \<Rightarrow> award" where
  "award_row k b u \<equiv> \<lparr>award_pk = k, award_description = [], badge_id = b, user_id = u,
                       creator_id = Some 1, award_created = 5, award_modified = 5\<rparr>"

abbreviation store :: "award list \<Rightarrow> db" where
  "store rows \<equiv> \<lparr>awards = rows, badges = [creator_b, helper_b],
                  award_seq = 10, clock = 7\<rparr>"

section \<open>BadgeManager.allows\_add\_by\<close>

text \<open>\<open>Badge.objects.get(slug=...)\<close> over the Badge table.\<close>

definition badge_get_by_slug :: "db \<Rightarrow> string \<Rightarrow> error + badge" where
  "badge_get_by_slug d s =
     (case filter (\<lambda>b. slug b = s) (badges d) of
        [] \<Rightarrow> Inl DoesNotExist
      | [b] \<Rightarrow> Inr b
      | _ # _ # _ \<Rightarrow> Inl MultipleObjectsReturned)"

text \<open>\<open>Badge.DoesNotExist\<close> is caught and answered with False; any other
  exception of the lookup propagates to the caller.\<close>

definition allows_add_by :: "db \<Rightarrow> actor \<Rightarrow> error + bool" where
  "allows_add_by d usr =
     (case usr of
        AnonymousUser \<Rightarrow> Inr False
      | User u \<Rightarrow>
          (case badge_get_by_slug d ''creator'' of
             Inr creator_badge \<Rightarrow> Inr (is_awarded_to d creator_badge u)
           | Inl DoesNotExist \<Rightarrow> Inr False
           | Inl e \<Rightarrow> Inl e))"

section \<open>Badge.save\<close>

text \<open>
  Modelled from the spec: \<open>slugify\<close> is imported from
  \<open>django.template.defaultfilters\<close> and is not part of this repository; the spec
  calls it lowercase-hyphenation. On ASCII text Django's filter deletes every
  character that is not a word character, whitespace or a hyphen, strips
  surrounding whitespace, lowercases, and replaces each run of hyphens and
  whitespace by one hyphen. Bytes outside ASCII are dropped here, as its
  \<open>encode('ascii', 'ignore')\<close> drops what has no ASCII form.
\<close>

definition is_word_char :: "char \<Rightarrow> bool" where
  "is_word_char c =
     (c \<in> set ''abcdefghijklmnopqrstuvwxyzABCDEFGHIJKLMNOPQRSTUVWXYZ0123456789_'')"

definition is_space_char :: "char \<Rightarrow> bool" where
  "is_space_char c = (c \<in> set [CHR '' '', CHR 0x09, CHR 0x0A, CHR 0x0B, CHR 0x0C, CHR 0x0D])"

definition lower_char :: "char \<Rightarrow> char" where
  "lower_char c =
     (case map_of (zip ''ABCDEFGHIJKLMNOPQRSTUVWXYZ'' ''abcdefghijklmnopqrstuvwxyz'') c of
        Some l \<Rightarrow> l
      | None \<Rightarrow> c)"

definition strip :: "string \<Rightarrow> string" where
  "strip s = rev (dropWhile is_space_char (rev (dropWhile is_space_char s)))"

definition is_hyphen_or_space :: "char \<Rightarrow> bool" where
  "is_hyphen_or_space c = (c = CHR ''-'' \<or> is_space_char c)"

text \<open>\<open>re.sub('[-\\s]+', '-', value)\<close>: every maximal run of hyphens and whitespace
  becomes one hyphen. The flag says whether the previous character belonged to
  a run.\<close>

fun hyphenate_from :: "bool \<Rightarrow> string \<Rightarrow> string" where
  "hyphenate_from in_run [] = []"
| "hyphenate_from in_run (c # cs) =
     (if is_hyphen_or_space c
      then (if in_run then hyphenate_from True cs else CHR ''-'' # hyphenate_from True cs)
      else c # hyphenate_from False cs)"

definition hyphenate :: "string \<Rightarrow> string" where
  "hyphenate s = hyphenate_from False s"

definition slugify :: "string \<Rightarrow> string" where
  "slugify v =
     hyphenate (map lower_char (strip
       (filter (\<lambda>c. is_word_char c \<or> is_space_char c \<or> c = CHR ''-'') v)))"

text \<open>The assignment \<open>self.slug = ...\<close>.\<close>

definition set_slug :: "badge \<Rightarrow> string \<Rightarrow> badge" where
  "set_slug b s =
     Badge (badge_pk b) (title b) s (badge_description b) (awarding_prerequisite b)
       (nominations_accepted b) (badge_creator b)"

text \<open>
  \<open>super(Badge, self).save()\<close>: the row is written under its primary key,
  replacing the row that has it or else inserted. \<open>title\<close> and \<open>slug\<close> are
  declared unique, so a different row with the same title or slug makes the
  database refuse the write.
\<close>

definition unique_conflict :: "db \<Rightarrow> badge \<Rightarrow> bool" where
  "unique_conflict d b =
     (\<exists>r \<in> set (badges d). badge_pk r \<noteq> badge_pk b \<and> (title r = title b \<or> slug r = slug b))"

definition model_save :: "db \<Rightarrow> badge \<Rightarrow> (error + unit) \<times> db" where
  "model_save d b =
     (if unique_conflict d b then (Inl IntegrityError, d)
      else if \<exists>r \<in> set (badges d). badge_pk r = badge_pk b
        then (Inr (), d\<lparr>badges := map (\<lambda>r. if badge_pk r = badge_pk b then b else r) (badges d)\<rparr>)
      else (Inr (), d\<lparr>badges := badges d @ [b]\<rparr>))"

text \<open>The result is the outcome of the write, the Badge object after the call
  and the store after the call. An empty slug is the falsy value of
  \<open>not self.slug\<close>.\<close>

definition save :: "db \<Rightarrow> badge \<Rightarrow> (error + unit) \<times> badge \<times> db" where
  "save d self =
     (let self' = (if slug self = [] then set_slug self (slugify (title self)) else self)
      in case model_save d self' of (r, d') \<Rightarrow> (r, self', d'))"

section \<open>Upload path builder\<close>

text \<open>
  Modelled from the spec: the content hash of the upload path is \<open>hashlib.md5\<close>
  of Python's standard library, which is not part of this repository. It is
  written out here as RFC 1321 defines it: the message is padded to a multiple
  of 64 bytes, read as little-endian 32-bit words, and each block of 16 words
  runs 64 steps over four chaining words; \<open>hexdigest\<close> prints the 16 bytes of the
  result as 32 lower-case hexadecimal digits.
\<close>

type_synonym u32 = "32 word"
type_synonym byte = "8 word"

definition md5_s :: "nat list" where
  "md5_s = [7, 12, 17, 22, 7, 12, 17, 22, 7, 12, 17, 22, 7, 12, 17, 22,
            5, 9, 14, 20, 5, 9, 14, 20, 5, 9, 14, 20, 5, 9, 14, 20,
            4, 11, 16, 23, 4, 11, 16, 23, 4, 11, 16, 23, 4, 11, 16, 23,
            6, 10, 15, 21, 6, 10, 15, 21, 6, 10, 15, 21, 6, 10, 15, 21]"

definition md5_K :: "u32 list" where
  "md5_K = [0xd76aa478, 0xe8c7b756, 0x242070db, 0xc1bdceee,
            0xf57c0faf, 0x4787c62a, 0xa8304613, 0xfd469501,
            0x698098d8, 0x8b44f7af, 0xffff5bb1, 0x895cd7be,
            0x6b901122, 0xfd987193, 0xa679438e, 0x49b40821,
            0xf61e2562, 0xc040b340, 0x265e5a51, 0xe9b6c7aa,
            0xd62f105d, 0x02441453, 0xd8a1e681, 0xe7d3fbc8,
            0x21e1cde6, 0xc33707d6, 0xf4d50d87, 0x455a14ed,
            0xa9e3e905, 0xfcefa3f8, 0x676f02d9, 0x8d2a4c8a,
            0xfffa3942, 0x8771f681, 0x6d9d6122, 0xfde5380c,
            0xa4beea44, 0x4bdecfa9, 0xf6bb4b60, 0xbebfbc70,
            0x289b7ec6, 0xeaa127fa, 0xd4ef3085, 0x04881d05,
            0xd9d4d039, 0xe6db99e5, 0x1fa27cf8, 0xc4ac5665,
            0xf4292244, 0x432aff97, 0xab9423a7, 0xfc93a039,
            0x655b59c3, 0x8f0ccc92, 0xffeff47d, 0x85845dd1,
            0x6fa87e4f, 0xfe2ce6e0, 0xa3014314, 0x4e0811a1,
            0xf7537e82, 0xbd3af235, 0x2ad7d2bb, 0xeb86d391]"

definition rotl32 :: "u32 \<Rightarrow> nat \<Rightarrow> u32" where
  "rotl32 x n = push_bit n x OR drop_bit (32 - n) x"

definition len_bytes :: "nat \<Rightarrow> byte list" where
  "len_bytes n =
     (let w = (word_of_nat (8 * n) :: 64 word)
      in [ucast w, ucast (drop_bit 8 w), ucast (drop_bit 16 w), ucast (drop_bit 24 w),
          ucast (drop_bit 32 w), ucast (drop_bit 40 w), ucast (drop_bit 48 w),
          ucast (drop_bit 56 w)])"

definition md5_pad :: "byte list \<Rightarrow> byte list" where
  "md5_pad msg =
     msg @ [0x80] @ replicate ((119 - length msg mod 64) mod 64) 0 @ len_bytes (length msg)"

fun le_words :: "byte list \<Rightarrow> u32 list" where
  "le_words (b0 # b1 # b2 # b3 # bs) =
     (ucast b0 OR push_bit 8 (ucast b1) OR push_bit 16 (ucast b2) OR push_bit 24 (ucast b3))
       # le_words bs"
| "le_words _ = []"

fun chunks :: "u32 list \<Rightarrow> u32 list list" where
  "chunks [] = []"
| "chunks ws = take 16 ws # chunks (drop 16 ws)"

definition md5_step :: "u32 list \<Rightarrow> u32 \<times> u32 \<times> u32 \<times> u32 \<Rightarrow> nat \<Rightarrow> u32 \<times> u32 \<times> u32 \<times> u32" where
  "md5_step m st i =
     (case st of (a, b, c, d) \<Rightarrow>
        let (f, g) =
              (if i < 16 then ((b AND c) OR (NOT b AND d), i)
               else if i < 32 then ((d AND b) OR (NOT d AND c), (5 * i + 1) mod 16)
               else if i < 48 then (b XOR c XOR d, (3 * i + 5) mod 16)
               else (c XOR (b OR NOT d), (7 * i) mod 16));
            f' = f + a + md5_K ! i + m ! g
        in (d, b + rotl32 f' (md5_s ! i), b, c))"

definition md5_chunk :: "u32 \<times> u32 \<times> u32 \<times> u32 \<Rightarrow> u32 list \<Rightarrow> u32 \<times> u32 \<times> u32 \<times> u32" where
  "md5_chunk st m =
     (case st of (a0, b0, c0, d0) \<Rightarrow>
        case foldl (md5_step m) st [0..<64] of (a, b, c, d) \<Rightarrow>
          (a0 + a, b0 + b, c0 + c, d0 + d))"

definition md5 :: "byte list \<Rightarrow> u32 \<times> u32 \<times> u32 \<times> u32" where
  "md5 msg = foldl md5_chunk (0x67452301, 0xefcdab89, 0x98badcfe, 0x10325476)
               (chunks (le_words (md5_pad msg)))"

definition hex_byte :: "byte \<Rightarrow> string" where
  "hex_byte b = [''0123456789abcdef'' ! unat (drop_bit 4 b), ''0123456789abcdef'' ! unat (b AND 15)]"

definition le_bytes :: "u32 \<Rightarrow> byte list" where
  "le_bytes w = [ucast w, ucast (drop_bit 8 w), ucast (drop_bit 16 w), ucast (drop_bit 24 w)]"

definition hexdigest :: "u32 \<times> u32 \<times> u32 \<times> u32 \<Rightarrow> string" where
  "hexdigest st = (case st of (a, b, c, d) \<Rightarrow>
      concat (map hex_byte (le_bytes a @ le_bytes b @ le_bytes c @ le_bytes d)))"

definition md5_hexdigest :: "string \<Rightarrow> string" where
  "md5_hexdigest s = hexdigest (md5 (map of_char s))"


text \<open>\<open>s[i]\<close> for a non-negative index: out of range raises \<open>IndexError\<close>.\<close>

definition str_index :: "string \<Rightarrow> nat \<Rightarrow> error + char" where
  "str_index s i = (if i < length s then Inr (s ! i) else Inl IndexError)"

text \<open>Decimal digits of a natural number, the unsigned part of \<open>str(n)\<close>.\<close>

fun str_nat :: "nat \<Rightarrow> string" where
  "str_nat n =
     (if n < 10 then [''0123456789'' ! n]
      else str_nat (n div 10) @ [''0123456789'' ! (n mod 10)])"

declare str_nat.simps [simp del]

text \<open>\<open>'%s' % i\<close> for an integer.\<close>

definition str_int :: "int \<Rightarrow> string" where
  "str_int i = (if i < 0 then CHR ''-'' # str_nat (nat (- i)) else str_nat (nat i))"

text \<open>\<open>'%04d' % i\<close>: zero-padded to a width of at least four, the sign counted.\<close>

definition format_04d :: "int \<Rightarrow> string" where
  "format_04d i =
     (if i < 0
      then CHR ''-'' # replicate (3 - length (str_nat (nat (- i)))) CHR ''0'' @ str_nat (nat (- i))
      else replicate (4 - length (str_nat (nat i))) CHR ''0'' @ str_nat (nat i))"

text \<open>\<open>Badge.get_upload_meta\<close>.\<close>

definition get_upload_meta :: "badge \<Rightarrow> string \<times> string" where
  "get_upload_meta self = (''badge'', slug self)"

text \<open>
  The body of \<open>upload_to\<close> for the default template \<open>MK_UPLOAD_TMPL\<close>, given
  the pair \<open>instance.get_upload_meta()\<close> returns, the value \<open>now\<close> of
  \<open>int(time())\<close> and the value \<open>rand\<close> drawn by \<open>random.randint\<close>. The
  template does not use the keys \<open>slug\<close> and \<open>pk\<close>.
\<close>

definition upload_to_with ::
  "int \<Rightarrow> int \<Rightarrow> string \<Rightarrow> string \<Rightarrow> string \<times> string \<Rightarrow> string \<Rightarrow> error + string" where
  "upload_to_with now rand field_fn ext meta filename =
     (case meta of (base, slug') \<Rightarrow>
        let slug_hash = md5_hexdigest slug'
        in case str_index slug_hash 0 of
             Inl e \<Rightarrow> Inl e
           | Inr h1 \<Rightarrow>
               (case str_index slug_hash 1 of
                  Inl e \<Rightarrow> Inl e
                | Inr h2 \<Rightarrow>
                    Inr (base @ ''/'' @ [h1] @ ''/'' @ [h2] @ ''/'' @ slug_hash @ ''_''
                         @ field_fn @ ''_'' @ str_int now @ ''_'' @ format_04d rand
                         @ ''.'' @ ext)))"

text \<open>\<open>random.randint(a, b)\<close> returns any integer N with a \<le> N \<le> b.\<close>

definition randint :: "int \<Rightarrow> int \<Rightarrow> int set" where
  "randint a b = {a..b}"

text \<open>The paths \<open>mk_upload_to(field_fn, ext)(instance, filename)\<close> may return, over
  every clock value and every draw of \<open>random.randint(0, 1000)\<close>.\<close>

definition mk_upload_to ::
  "string \<Rightarrow> string \<Rightarrow> string \<times> string \<Rightarrow> string \<Rightarrow> (error + string) set" where
  "mk_upload_to field_fn ext meta filename =
     {upload_to_with now rand field_fn ext meta filename | now rand. rand \<in> randint 0 1000}"

section \<open>scale\_image\<close>

text \<open>
  Python floats are IEEE 754 binary64 numbers, and each arithmetic operation
  returns the exact result rounded to the nearest representable number, ties to
  the even significand. Floats are modelled as the rationals they denote and
  \<open>fl\<close> is that rounding: the value is scaled so that its integer part has 53
  bits, rounded to an integer and scaled back. This is exact for results in the
  normal range, where all values computed from image sizes below \<open>2 ^ 31\<close> lie.
\<close>

definition round_half_even :: "rat \<Rightarrow> int" where
  "round_half_even x =
     (let f = \<lfloor>x\<rfloor>; r = x - of_int f
      in if r < 1 / 2 then f else if 1 / 2 < r then f + 1 else if even f then f else f + 1)"

text \<open>The exponent \<open>e\<close> with \<open>2 ^ e \<le> |x| < 2 ^ (e + 1)\<close>, for \<open>x\<close> other than 0.\<close>

definition float_exponent :: "rat \<Rightarrow> int" where
  "float_exponent x =
     (case quotient_of \<bar>x\<bar> of (n, d) \<Rightarrow>
        let k = bitlen n - bitlen d in if \<bar>x\<bar> < 2 powi k then k - 1 else k)"

definition fl :: "rat \<Rightarrow> rat" where
  "fl x =
     (if x = 0 then 0
      else let u = 2 powi (float_exponent x - 52) in of_int (round_half_even (x / u)) * u)"

text \<open>\<open>float(i)\<close>, also the conversion of an integer operand of a mixed operation.\<close>

definition to_float :: "int \<Rightarrow> rat" where
  "to_float i = fl (of_int i)"

text \<open>\<open>a / b\<close> on floats raises \<open>ZeroDivisionError\<close> for a zero divisor.\<close>

definition float_div :: "rat \<Rightarrow> rat \<Rightarrow> error + rat" where
  "float_div a b = (if b = 0 then Inl ZeroDivisionError else Inr (fl (a / b)))"

definition float_mul :: "rat \<Rightarrow> rat \<Rightarrow> rat" where
  "float_mul a b = fl (a * b)"

definition float_sub :: "rat \<Rightarrow> rat \<Rightarrow> rat" where
  "float_sub a b = fl (a - b)"

text \<open>\<open>int(x)\<close> truncates towards zero.\<close>

definition py_int :: "rat \<Rightarrow> int" where
  "py_int x = (if 0 \<le> x then \<lfloor>x\<rfloor> else \<lceil>x\<rceil>)"

text \<open>
  A PIL image is kept as the decoded source, with its size and mode, under the
  operations applied to it; pixels are not modelled. \<open>crop\<close> yields the size of
  its box, \<open>resize\<close> the requested size, \<open>convert\<close> the requested mode.
\<close>

datatype image =
  Source "int \<times> int" string
  | Crop "int \<times> int \<times> int \<times> int" image
  | Resize "int \<times> int" image
  | Convert string image

fun img_size :: "image \<Rightarrow> int \<times> int" where
  "img_size (Source sz m) = sz"
| "img_size (Crop box img) = (case box of (left, upper, right, lower) \<Rightarrow> (right - left, lower - upper))"
| "img_size (Resize sz img) = sz"
| "img_size (Convert m img) = img_size img"

fun img_mode :: "image \<Rightarrow> string" where
  "img_mode (Source sz m) = m"
| "img_mode (Crop box img) = img_mode img"
| "img_mode (Resize sz img) = img_mode img"
| "img_mode (Convert m img) = m"

text \<open>
  The tail of \<open>scale_image\<close>: crop, resize, convert to RGB unless the mode is RGB
  or RGBA. The image returned is the one whose PNG encoding fills the
  \<open>ContentFile\<close>.
\<close>

definition crop_resize_encode ::
  "image \<Rightarrow> int \<times> int \<times> int \<times> int \<Rightarrow> int \<times> int \<Rightarrow> image" where
  "crop_resize_encode img box dst =
     (let img1 = Crop box img;
          img2 = Resize dst img1
      in if img_mode img2 \<notin> {''RGB'', ''RGBA''} then Convert ''RGB'' img2 else img2)"

text \<open>
  \<open>img_upload\<close> is \<open>None\<close> when \<open>Image.open\<close> raises \<open>IOError\<close>, which the function
  answers with \<open>None\<close>, and the decoded image otherwise.
\<close>

definition scale_image :: "image option \<Rightarrow> int \<times> int \<Rightarrow> error + image option" where
  "scale_image img_upload img_max_size =
     (case img_upload of
        None \<Rightarrow> Inr None
      | Some img \<Rightarrow>
          (case img_size img of (src_width, src_height) \<Rightarrow>
           case float_div (to_float src_width) (to_float src_height) of
             Inl e \<Rightarrow> Inl e
           | Inr src_ratio \<Rightarrow>
          (case img_max_size of (dst_width, dst_height) \<Rightarrow>
           case float_div (to_float dst_width) (to_float dst_height) of
             Inl e \<Rightarrow> Inl e
           | Inr dst_ratio \<Rightarrow>
               if dst_ratio < src_ratio then
                 (let crop_height = src_height;
                      crop_width = float_mul (to_float crop_height) dst_ratio
                  in case float_div (float_sub (to_float src_width) crop_width) (to_float 2) of
                       Inl e \<Rightarrow> Inl e
                     | Inr half \<Rightarrow>
                         let x_offset = py_int half; y_offset = 0
                         in Inr (Some (crop_resize_encode img
                              (x_offset, y_offset, x_offset + py_int crop_width,
                               y_offset + crop_height)
                              (dst_width, dst_height))))
               else
                 (let crop_width = src_width
                  in case float_div (to_float crop_width) dst_ratio of
                       Inl e \<Rightarrow> Inl e
                     | Inr crop_height \<Rightarrow>
                         (case float_div (float_sub (to_float src_height) crop_height) (to_float 2) of
                            Inl e \<Rightarrow> Inl e
                          | Inr half \<Rightarrow>
                              let x_offset = 0; y_offset = py_int half
                              in Inr (Some (crop_resize_encode img
                                   (x_offset, y_offset, x_offset + crop_width,
                                    y_offset + py_int crop_height)
                                   (dst_width, dst_height))))))))"

text \<open>
  The crop box in the words of the specification: with
  \<open>src_ratio = src_width / src_height\<close> and \<open>dst_ratio = dst_width / dst_height\<close>,
  a destination narrower than the source keeps the full height and a centred
  strip of width \<open>src_height * dst_ratio\<close>; otherwise the full width and a centred
  strip of height \<open>src_width / dst_ratio\<close>.
\<close>

definition claimed_crop_box :: "int \<times> int \<Rightarrow> int \<times> int \<Rightarrow> int \<times> int \<times> int \<times> int" where
  "claimed_crop_box src dst =
     (case src of (src_width, src_height) \<Rightarrow>
      case dst of (dst_width, dst_height) \<Rightarrow>
        let src_ratio = fl (to_float src_width / to_float src_height);
            dst_ratio = fl (to_float dst_width / to_float dst_height)
        in if dst_ratio < src_ratio then
             (let crop_width = fl (to_float src_height * dst_ratio);
                  x_offset = py_int (fl (fl (to_float src_width - crop_width) / 2))
              in (x_offset, 0, x_offset + py_int crop_width, src_height))
           else
             (let crop_height = fl (to_float src_width / dst_ratio);
                  y_offset = py_int (fl (fl (to_float src_height - crop_height) / 2))
              in (0, y_offset, src_width, y_offset + py_int crop_height)))"

text \<open>Image sizes are positive and fit the C integers PIL stores them in.\<close>

definition pixel_size :: "int \<times> int \<Rightarrow> bool" where
  "pixel_size sz = (case sz of (w, h) \<Rightarrow> 0 < w \<and> w < 2 ^ 31 \<and> 0 < h \<and> h < 2 ^ 31)"

section \<open>Award authorization\<close>

text \<open>
  C5. For every badge B and user U, \<open>B.is_awarded_to(U)\<close> is true if and only if
  at least one Award row exists whose badge is B and whose user is U.
\<close>

theorem is_awarded_to_iff_award_exists:
  "is_awarded_to d B U =
     (\<exists>a \<in> set (awards d). badge_id a = badge_pk B \<and> user_id a = user_pk U)"
  by (auto simp: is_awarded_to_def award_filter_def filter_empty_conv)

theorem is_awarded_to_iff_award_exists_witness:
  "is_awarded_to (store [award_row 1 1 2]) creator_b alice
   \<and> \<not> is_awarded_to (store [award_row 1 1 2]) creator_b bob
   \<and> \<not> is_awarded_to (store [award_row 1 1 2]) helper_b alice"
  using is_awarded_to_iff_award_exists [of "store [award_row 1 1 2]" creator_b alice]
    is_awarded_to_iff_award_exists [of "store [award_row 1 1 2]" creator_b bob]
    is_awarded_to_iff_award_exists [of "store [award_row 1 1 2]" helper_b alice]
  by simp

text \<open>
  C1. \<open>allows_award_to\<close> is false for an absent or anonymous actor, true for a
  superuser, and for any other authenticated actor true exactly when the badge
  has an awarding prerequisite that is already awarded to the actor.
\<close>

theorem allows_award_to_cases:
  "(usr = None \<or> (\<exists>a. usr = Some a \<and> is_anonymous a) \<longrightarrow> \<not> allows_award_to d B usr)
   \<and> ((\<exists>a. usr = Some a \<and> is_superuser a) \<longrightarrow> allows_award_to d B usr)
   \<and> (\<forall>u. usr = Some (User u) \<and> \<not> is_superuser (User u) \<longrightarrow>
         allows_award_to d B usr =
           (\<exists>p. awarding_prerequisite B = Some p \<and> is_awarded_to d p u))"
proof (intro conjI impI allI)
  assume "usr = None \<or> (\<exists>a. usr = Some a \<and> is_anonymous a)"
  then show "\<not> allows_award_to d B usr"
  proof
    assume "usr = None"
    then show ?thesis by (simp add: allows_award_to_def)
  next
    assume "\<exists>a. usr = Some a \<and> is_anonymous a"
    then obtain a where "usr = Some a" and "is_anonymous a" by blast
    then show ?thesis by (cases a) (simp_all add: allows_award_to_def)
  qed
next
  assume "\<exists>a. usr = Some a \<and> is_superuser a"
  then obtain a where "usr = Some a" and "is_superuser a" by blast
  then show "allows_award_to d B usr"
    by (cases a) (simp_all add: allows_award_to_def)
next
  fix u
  assume "usr = Some (User u) \<and> \<not> is_superuser (User u)"
  then show "allows_award_to d B usr =
      (\<exists>p. awarding_prerequisite B = Some p \<and> is_awarded_to d p u)"
    by (simp add: allows_award_to_def split: option.splits)
qed

theorem allows_award_to_cases_witness:
  "\<not> allows_award_to (store []) helper_b None
   \<and> \<not> allows_award_to (store []) helper_b (Some AnonymousUser)
   \<and> allows_award_to (store []) helper_b (Some (User admin))
   \<and> allows_award_to (store [award_row 1 1 2]) helper_b (Some (User alice))
   \<and> \<not> allows_award_to (store [award_row 1 1 2]) helper_b (Some (User bob))
   \<and> \<not> allows_award_to (store [award_row 1 1 2]) creator_b (Some (User alice))"
  using allows_award_to_cases [of None "store []" helper_b]
    allows_award_to_cases [of "Some AnonymousUser" "store []" helper_b]
    allows_award_to_cases [of "Some (User admin)" "store []" helper_b]
    allows_award_to_cases [of "Some (User alice)" "store [award_row 1 1 2]" helper_b]
    allows_award_to_cases [of "Some (User bob)" "store [award_row 1 1 2]" helper_b]
    allows_award_to_cases [of "Some (User alice)" "store [award_row 1 1 2]" creator_b]
  by (simp add: is_awarded_to_def award_filter_def)

section \<open>Awarding\<close>

text \<open>Reading the clock or appending a row never removes an award, so an awarder
  who may award keeps that right.\<close>

lemma award_filter_clock [simp]: "award_filter (d\<lparr>clock := t\<rparr>) u b = award_filter d u b"
  by (simp add: award_filter_def)

lemma is_awarded_to_clock [simp]: "is_awarded_to (d\<lparr>clock := t\<rparr>) b u = is_awarded_to d b u"
  by (simp add: is_awarded_to_def)

lemma allows_award_to_clock [simp]:
  "allows_award_to (d\<lparr>clock := t\<rparr>) b usr = allows_award_to d b usr"
  by (simp add: allows_award_to_def split: option.splits actor.splits)

lemma award_get_clock [simp]: "award_get (d\<lparr>clock := t\<rparr>) u b = award_get d u b"
  by (simp add: award_get_def)

lemma award_filter_create:
  "award_filter (snd (award_create d u b w s)) u' b' =
     award_filter d u' b' @
       (if user_pk u = user_pk u' \<and> badge_pk b = badge_pk b' then [fst (award_create d u b w s)] else [])"
  by (simp add: award_filter_def award_create_def Let_def)

lemma is_awarded_to_create_mono:
  "is_awarded_to d b' u' \<Longrightarrow> is_awarded_to (snd (award_create d u b w s)) b' u'"
  by (simp add: is_awarded_to_def award_filter_create)

lemma allows_award_to_create_mono:
  "allows_award_to d b' usr \<Longrightarrow> allows_award_to (snd (award_create d u b w s)) b' usr"
  by (auto simp: allows_award_to_def split: option.splits actor.splits if_splits
           intro: is_awarded_to_create_mono)

lemma award_get_not_disallowed: "award_get d u b \<noteq> Inl BadgeAwardNotAllowedException"
  by (simp add: award_get_def split: list.splits)

text \<open>
  C2. \<open>award_to\<close> fails with the "award not allowed" error exactly when
  \<open>allows_award_to(awarder)\<close> is false, and then the store is left as it was.
\<close>

theorem award_to_not_allowed_iff:
  "(fst (award_to d B awardee awarder description r) = Inl BadgeAwardNotAllowedException)
     = (\<not> allows_award_to d B awarder)
   \<and> (\<not> allows_award_to d B awarder \<longrightarrow>
        snd (award_to d B awardee awarder description r) = d)"
  by (simp add: award_to_def award_get_not_disallowed split: prod.splits)

theorem award_to_not_allowed_iff_witness:
  "\<not> allows_award_to (store []) helper_b (Some (User alice))
   \<and> award_to (store []) helper_b bob (Some (User alice)) ''thanks'' False
       = (Inl BadgeAwardNotAllowedException, store [])"
  using award_to_not_allowed_iff [of "store []" helper_b bob "Some (User alice)" "''thanks''" False]
  by (simp add: allows_award_to_def is_awarded_to_def award_filter_def prod_eq_iff)

text \<open>
  C3. For an authorized awarder and an awardee holding at most one Award for the
  badge, \<open>award_to\<close> with \<open>raise_already_awarded=False\<close> returns an Award
  that a second call, at any later clock and with any description, returns again
  without changing the store.
\<close>

theorem award_to_idempotent:
  assumes "allows_award_to d B awarder"
    and "length (award_filter d awardee B) \<le> 1"
  shows "\<exists>a d'. award_to d B awardee awarder description False = (Inr a, d')
           \<and> a \<in> set (award_filter d' awardee B)
           \<and> (\<forall>t s. award_to (d'\<lparr>clock := t\<rparr>) B awardee awarder s False
                      = (Inr a, d'\<lparr>clock := t\<rparr>))"
proof (cases "is_awarded_to d B awardee")
  case True
  with assms(2) obtain a where a: "award_filter d awardee B = [a]"
    by (cases "award_filter d awardee B") (auto simp: is_awarded_to_def)
  then have "award_get d awardee B = Inr a" by (simp add: award_get_def)
  with True assms(1) a show ?thesis
    by (simp add: award_to_def)
next
  case False
  then have empty: "award_filter d awardee B = []" by (simp add: is_awarded_to_def)
  obtain a d' where c: "award_create d awardee B awarder description = (a, d')"
    by (cases "award_create d awardee B awarder description")
  from empty c have f: "award_filter d' awardee B = [a]"
    using award_filter_create [of d awardee B awarder description awardee B] by simp
  from c assms(1) have al: "allows_award_to d' B awarder"
    using allows_award_to_create_mono [of d B awarder awardee B awarder description] by simp
  from f have "award_get d' awardee B = Inr a" by (simp add: award_get_def)
  with False assms(1) c f al show ?thesis
    by (simp add: award_to_def is_awarded_to_def)
qed

theorem award_to_idempotent_witness:
  "allows_award_to (store []) helper_b (Some (User admin))
   \<and> length (award_filter (store []) bob helper_b) \<le> 1
   \<and> fst (award_to (store []) helper_b bob (Some (User admin)) ''thanks'' False)
       = fst (award_to (snd (award_to (store []) helper_b bob (Some (User admin)) ''thanks'' False))
                helper_b bob (Some (User admin)) ''thanks'' False)"
proof -
  have h1: "allows_award_to (store []) helper_b (Some (User admin))"
    by (simp add: allows_award_to_def)
  have h2: "length (award_filter (store []) bob helper_b) \<le> 1"
    by (simp add: award_filter_def)
  from award_to_idempotent [OF h1 h2, of "''thanks''"]
  obtain a d' where first: "award_to (store []) helper_b bob (Some (User admin)) ''thanks'' False = (Inr a, d')"
    and again: "\<forall>t s. award_to (d'\<lparr>clock := t\<rparr>) helper_b bob (Some (User admin)) s False
                  = (Inr a, d'\<lparr>clock := t\<rparr>)"
    by blast
  from again have "award_to (d'\<lparr>clock := clock d'\<rparr>) helper_b bob (Some (User admin)) ''thanks'' False
      = (Inr a, d'\<lparr>clock := clock d'\<rparr>)"
    by blast
  then have "award_to d' helper_b bob (Some (User admin)) ''thanks'' False = (Inr a, d')"
    by simp
  with first h1 h2 show ?thesis by simp
qed

text \<open>
  C4, as stated for every awardee, fails when the awardee already holds the badge:
  the first strict call is itself refused.
\<close>

theorem award_to_first_call_already_awarded:
  "allows_award_to (store [award_row 1 2 3]) helper_b (Some (User admin))
   \<and> award_to (store [award_row 1 2 3]) helper_b bob (Some (User admin)) ''thanks'' True
       = (Inl BadgeAlreadyAwardedException, store [award_row 1 2 3])"
  by (simp add: award_to_def allows_award_to_def is_awarded_to_def award_filter_def)

text \<open>
  C4, amended. For an authorized awarder and an awardee who does not yet hold the
  badge, \<open>award_to\<close> with \<open>raise_already_awarded=True\<close> succeeds, appending one
  Award; a second call fails with the "already awarded" error and leaves the
  store, and so that Award, as it was.
\<close>

theorem award_to_strict_twice:
  assumes "allows_award_to d B awarder"
    and "\<not> is_awarded_to d B awardee"
  shows "\<exists>a d'. award_to d B awardee awarder description True = (Inr a, d')
           \<and> awards d' = awards d @ [a]
           \<and> (\<forall>t s. award_to (d'\<lparr>clock := t\<rparr>) B awardee awarder s True
                      = (Inl BadgeAlreadyAwardedException, d'\<lparr>clock := t\<rparr>))"
proof -
  from assms(2) have empty: "award_filter d awardee B = []" by (simp add: is_awarded_to_def)
  obtain a d' where c: "award_create d awardee B awarder description = (a, d')"
    by (cases "award_create d awardee B awarder description")
  from empty c have f: "award_filter d' awardee B = [a]"
    using award_filter_create [of d awardee B awarder description awardee B] by simp
  from c assms(1) have al: "allows_award_to d' B awarder"
    using allows_award_to_create_mono [of d B awarder awardee B awarder description] by simp
  from c have "awards d' = awards d @ [a]" by (auto simp: award_create_def Let_def)
  with assms c f al show ?thesis
    by (simp add: award_to_def is_awarded_to_def)
qed

theorem award_to_strict_twice_witness:
  "allows_award_to (store []) helper_b (Some (User admin))
   \<and> \<not> is_awarded_to (store []) helper_b bob
   \<and> fst (award_to (snd (award_to (store []) helper_b bob (Some (User admin)) ''thanks'' True))
            helper_b bob (Some (User admin)) ''thanks'' True)
       = Inl BadgeAlreadyAwardedException"
proof -
  have h1: "allows_award_to (store []) helper_b (Some (User admin))"
    by (simp add: allows_award_to_def)
  have h2: "\<not> is_awarded_to (store []) helper_b bob"
    by (simp add: is_awarded_to_def award_filter_def)
  from award_to_strict_twice [OF h1 h2, of "''thanks''"]
  obtain a d' where first: "award_to (store []) helper_b bob (Some (User admin)) ''thanks'' True = (Inr a, d')"
    and again: "\<forall>t s. award_to (d'\<lparr>clock := t\<rparr>) helper_b bob (Some (User admin)) s True
                  = (Inl BadgeAlreadyAwardedException, d'\<lparr>clock := t\<rparr>)"
    by blast
  from again have "award_to (d'\<lparr>clock := clock d'\<rparr>) helper_b bob (Some (User admin)) ''thanks'' True
      = (Inl BadgeAlreadyAwardedException, d'\<lparr>clock := clock d'\<rparr>)"
    by blast
  then have "award_to d' helper_b bob (Some (User admin)) ''thanks'' True
      = (Inl BadgeAlreadyAwardedException, d')"
    by simp
  with first h1 h2 show ?thesis by simp
qed

text \<open>
  C10. When more than one Award row exists for the (badge, awardee) pair, an
  authorized \<open>award_to\<close> with \<open>raise_already_awarded=False\<close> returns none of
  them: the single-object lookup raises \<open>MultipleObjectsReturned\<close>.
\<close>

theorem award_to_duplicates_raise:
  assumes "allows_award_to d B awarder"
    and "length (award_filter d awardee B) > 1"
  shows "award_to d B awardee awarder description False = (Inl MultipleObjectsReturned, d)"
proof -
  from assms(2) obtain a b rest where "award_filter d awardee B = a # b # rest"
    by (cases "award_filter d awardee B" rule: list.exhaust; simp; case_tac x22; simp)
  with assms(1) show ?thesis
    by (simp add: award_to_def is_awarded_to_def award_get_def)
qed

theorem award_to_duplicates_raise_witness:
  "allows_award_to (store [award_row 1 2 3, award_row 2 2 3]) helper_b (Some (User admin))
   \<and> length (award_filter (store [award_row 1 2 3, award_row 2 2 3]) bob helper_b) > 1
   \<and> award_to (store [award_row 1 2 3, award_row 2 2 3]) helper_b bob (Some (User admin)) ''thanks'' False
       = (Inl MultipleObjectsReturned, store [award_row 1 2 3, award_row 2 2 3])"
  using award_to_duplicates_raise [of "store [award_row 1 2 3, award_row 2 2 3]" helper_b
      "Some (User admin)" bob "''thanks''"]
  by (simp add: allows_award_to_def award_filter_def)

section \<open>Badge creation permission\<close>

lemma badge_get_by_slug_Inr:
  "badge_get_by_slug d s = Inr b \<Longrightarrow> b \<in> set (badges d) \<and> slug b = s"
proof -
  assume g: "badge_get_by_slug d s = Inr b"
  then have "filter (\<lambda>b. slug b = s) (badges d) = [b]"
    by (auto simp: badge_get_by_slug_def split: list.splits)
  then have "b \<in> set (filter (\<lambda>b. slug b = s) (badges d))" by simp
  then show ?thesis by simp
qed

lemma badge_get_by_slug_none:
  "\<forall>b \<in> set (badges d). slug b \<noteq> s \<Longrightarrow> badge_get_by_slug d s = Inl DoesNotExist"
  by (simp add: badge_get_by_slug_def filter_empty_conv[THEN iffD2])

text \<open>
  C6. \<open>allows_add_by\<close> returns true only if a badge with slug \<open>creator\<close>
  exists and is already awarded to the user; when no badge has that slug it
  returns false and raises nothing.
\<close>

theorem allows_add_by_needs_creator_badge:
  "(allows_add_by d usr = Inr True \<longrightarrow>
      (\<exists>b \<in> set (badges d). slug b = ''creator'' \<and>
          (\<exists>u. usr = User u \<and> is_awarded_to d b u)))
   \<and> ((\<forall>b \<in> set (badges d). slug b \<noteq> ''creator'') \<longrightarrow> allows_add_by d usr = Inr False)"
proof (intro conjI impI)
  assume t: "allows_add_by d usr = Inr True"
  then obtain u where u: "usr = User u"
    by (cases usr) (simp_all add: allows_add_by_def)
  with t obtain b where b: "badge_get_by_slug d ''creator'' = Inr b" and "is_awarded_to d b u"
    by (auto simp: allows_add_by_def split: sum.splits error.splits)
  with u badge_get_by_slug_Inr [OF b] show
    "\<exists>b \<in> set (badges d). slug b = ''creator'' \<and> (\<exists>u. usr = User u \<and> is_awarded_to d b u)"
    by blast
next
  assume "\<forall>b \<in> set (badges d). slug b \<noteq> ''creator''"
  then have "badge_get_by_slug d ''creator'' = Inl DoesNotExist"
    by (rule badge_get_by_slug_none)
  then show "allows_add_by d usr = Inr False"
    by (cases usr) (simp_all add: allows_add_by_def)
qed

theorem allows_add_by_needs_creator_badge_witness:
  "allows_add_by (store [award_row 1 1 2]) (User alice) = Inr True
   \<and> is_awarded_to (store [award_row 1 1 2]) creator_b alice
   \<and> allows_add_by \<lparr>awards = [award_row 1 2 2], badges = [helper_b], award_seq = 10, clock = 7\<rparr>
         (User alice) = Inr False"
  using allows_add_by_needs_creator_badge [of "store [award_row 1 1 2]" "User alice"]
    allows_add_by_needs_creator_badge
      [of "\<lparr>awards = [award_row 1 2 2], badges = [helper_b], award_seq = 10, clock = 7\<rparr>" "User alice"]
  by (simp add: allows_add_by_def badge_get_by_slug_def is_awarded_to_def award_filter_def)

section \<open>Saving a badge\<close>

lemma slugify_team_player: "slugify ''Team Player'' = ''team-player''"
  by (simp add: slugify_def hyphenate_def strip_def is_word_char_def is_space_char_def
      lower_char_def is_hyphen_or_space_def)

lemma slug_set_slug: "slug (set_slug b s) = s"
  by (simp add: set_slug_def)

lemma model_save_stores:
  "model_save d b = (Inr (), d') \<Longrightarrow> b \<in> set (badges d')"
  by (auto simp: model_save_def split: if_splits)

text \<open>
  C9. \<open>Badge.save\<close> on a badge with an empty slug sets the slug to
  \<open>slugify(title)\<close>; a slug set before the call is kept; a successful save
  stores the object; and the title "Team Player" with no slug yields the slug
  \<open>team-player\<close>.
\<close>

theorem save_derives_slug:
  "(slug B = [] \<longrightarrow> slug (fst (snd (save d B))) = slugify (title B))
   \<and> (slug B \<noteq> [] \<longrightarrow> slug (fst (snd (save d B))) = slug B)
   \<and> (fst (save d B) = Inr () \<longrightarrow> fst (snd (save d B)) \<in> set (badges (snd (snd (save d B)))))
   \<and> slug (fst (snd (save d (Badge k ''Team Player'' [] ds ap na cr)))) = ''team-player''"
proof (intro conjI impI)
  assume "slug B = []"
  then show "slug (fst (snd (save d B))) = slugify (title B)"
    by (simp add: save_def Let_def slug_set_slug split: prod.splits)
next
  assume "slug B \<noteq> []"
  then show "slug (fst (snd (save d B))) = slug B"
    by (simp add: save_def Let_def split: prod.splits)
next
  assume "fst (save d B) = Inr ()"
  then show "fst (snd (save d B)) \<in> set (badges (snd (snd (save d B))))"
    by (auto simp: save_def Let_def split: prod.splits dest: model_save_stores)
next
  show "slug (fst (snd (save d (Badge k ''Team Player'' [] ds ap na cr)))) = ''team-player''"
    by (simp add: save_def Let_def slug_set_slug slugify_team_player split: prod.splits)
qed

theorem save_derives_slug_witness:
  "save (store []) (Badge 7 ''Team Player'' [] ''Plays well'' None True (Some 1))
     = (Inr (), Badge 7 ''Team Player'' ''team-player'' ''Plays well'' None True (Some 1),
        \<lparr>awards = [], badges = [creator_b, helper_b,
             Badge 7 ''Team Player'' ''team-player'' ''Plays well'' None True (Some 1)],
           award_seq = 10, clock = 7\<rparr>)
   \<and> slug (fst (snd (save (store []) (Badge 7 ''Team Player'' ''tp'' ''Plays well'' None True (Some 1)))))
       = ''tp''"
  using save_derives_slug [of "Badge 7 ''Team Player'' [] ''Plays well'' None True (Some 1)" "store []"]
    save_derives_slug [of "Badge 7 ''Team Player'' ''tp'' ''Plays well'' None True (Some 1)" "store []"]
  by (simp add: save_def Let_def model_save_def unique_conflict_def set_slug_def slugify_team_player)

section \<open>Upload paths\<close>

lemma length_md5_hexdigest: "length (md5_hexdigest s) = 32"
  by (cases "md5 (map of_char s)")
     (simp add: md5_hexdigest_def hexdigest_def le_bytes_def hex_byte_def)

lemma upload_to_with_eq:
  "upload_to_with now rand field_fn ext (base, s) filename =
     Inr (base @ ''/'' @ [md5_hexdigest s ! 0] @ ''/'' @ [md5_hexdigest s ! 1] @ ''/''
          @ md5_hexdigest s @ ''_'' @ field_fn @ ''_'' @ str_int now @ ''_''
          @ format_04d rand @ ''.'' @ ext)"
proof -
  have "str_index (md5_hexdigest s) 0 = Inr (md5_hexdigest s ! 0)"
    and "str_index (md5_hexdigest s) 1 = Inr (md5_hexdigest s ! 1)"
    unfolding str_index_def length_md5_hexdigest by simp_all
  then show ?thesis
    by (simp add: upload_to_with_def Let_def)
qed

lemma replicate_3: "replicate 3 x = [x, x, x]"
  by (simp add: numeral_3_eq_3)

lemma str_int_example: "str_int 1400000000 = ''1400000000''"
  by (simp add: str_int_def str_nat.simps)

lemma format_04d_1000: "format_04d 1000 = ''1000''"
  by (simp add: format_04d_def str_nat.simps)

lemma format_04d_7: "format_04d 7 = ''0007''"
  by (simp add: format_04d_def str_nat.simps replicate_3)

lemma md5_hexdigest_creator:
  "md5_hexdigest ''creator'' = ''ee2433259b0fe399b40e81d2c98a38b6''"
  by code_simp

text \<open>
  C8, amended. Every generated upload path is
  \<open>base/h1/h2/hash_field_timestamp_rand.ext\<close>, where \<open>hash\<close> is the 32-digit
  hexadecimal MD5 digest of the slug, \<open>h1\<close> and \<open>h2\<close> are its first two digits,
  \<open>timestamp\<close> is the clock value in decimal and \<open>rand\<close> is an integer from 0 to
  1000, both ends included, printed with at least four digits; and every such
  path can be generated.
\<close>

theorem upload_to_path_form:
  "length (md5_hexdigest s) = 32
   \<and> (p \<in> mk_upload_to field_fn ext (base, s) filename) =
       (\<exists>now rand. 0 \<le> rand \<and> rand \<le> 1000 \<and>
          p = Inr (base @ ''/'' @ [md5_hexdigest s ! 0] @ ''/'' @ [md5_hexdigest s ! 1]
                   @ ''/'' @ md5_hexdigest s @ ''_'' @ field_fn @ ''_'' @ str_int now
                   @ ''_'' @ format_04d rand @ ''.'' @ ext))"
  by (auto simp: mk_upload_to_def randint_def upload_to_with_eq length_md5_hexdigest)

theorem upload_to_path_form_witness:
  "Inr ''badge/e/e/ee2433259b0fe399b40e81d2c98a38b6_image_1400000000_0007.png''
     \<in> mk_upload_to ''image'' ''png'' (get_upload_meta creator_b) ''logo.png''"
proof -
  have "\<exists>now rand. (0::int) \<le> rand \<and> rand \<le> 1000 \<and>
      Inr ''badge/e/e/ee2433259b0fe399b40e81d2c98a38b6_image_1400000000_0007.png'' =
      (Inr (''badge'' @ ''/'' @ [md5_hexdigest ''creator'' ! 0] @ ''/''
            @ [md5_hexdigest ''creator'' ! 1] @ ''/'' @ md5_hexdigest ''creator'' @ ''_''
            @ ''image'' @ ''_'' @ str_int now @ ''_'' @ format_04d rand @ ''.'' @ ''png'')
         :: error + string)"
    by (rule exI [of _ 1400000000], rule exI [of _ 7])
       (simp add: md5_hexdigest_creator str_int_example format_04d_7)
  with upload_to_path_form [of "''creator''"
      "Inr ''badge/e/e/ee2433259b0fe399b40e81d2c98a38b6_image_1400000000_0007.png''"
      "''image''" "''png''" "''badge''" "''logo.png''"]
  have "Inr ''badge/e/e/ee2433259b0fe399b40e81d2c98a38b6_image_1400000000_0007.png''
     \<in> mk_upload_to ''image'' ''png'' (''badge'', ''creator'') ''logo.png''"
    by blast
  then show ?thesis by (simp add: get_upload_meta_def)
qed

text \<open>
  C8 bounds the random component by 999. The path built from the draw 1000 is
  among the generated paths.
\<close>

theorem upload_to_rand_1000:
  "upload_to_with 1400000000 1000 ''image'' ''png'' (get_upload_meta creator_b) ''logo.png''
     = Inr ''badge/e/e/ee2433259b0fe399b40e81d2c98a38b6_image_1400000000_1000.png''
   \<and> upload_to_with 1400000000 1000 ''image'' ''png'' (get_upload_meta creator_b) ''logo.png''
       \<in> mk_upload_to ''image'' ''png'' (get_upload_meta creator_b) ''logo.png''"
proof
  show "upload_to_with 1400000000 1000 ''image'' ''png'' (get_upload_meta creator_b) ''logo.png''
     = Inr ''badge/e/e/ee2433259b0fe399b40e81d2c98a38b6_image_1400000000_1000.png''"
    by (simp add: get_upload_meta_def upload_to_with_eq md5_hexdigest_creator str_int_example
        format_04d_1000)
  have "(1000::int) \<in> randint 0 1000" by (simp add: randint_def)
  then show "upload_to_with 1400000000 1000 ''image'' ''png'' (get_upload_meta creator_b) ''logo.png''
       \<in> mk_upload_to ''image'' ''png'' (get_upload_meta creator_b) ''logo.png''"
    unfolding mk_upload_to_def by blast
qed

section \<open>Image scaling\<close>

text \<open>A positive value rounds to a positive float, so no ratio of sizes is zero.\<close>

lemma round_half_even_pos: "1 \<le> y \<Longrightarrow> 0 < round_half_even y"
proof -
  assume "1 \<le> y"
  then have "1 \<le> \<lfloor>y\<rfloor>" by linarith
  then show ?thesis by (auto simp: round_half_even_def Let_def)
qed

lemma quotient_of_pos:
  assumes "0 < x" and "quotient_of x = (n, d)"
  shows "0 < n" and "0 < d" and "x = of_int n / of_int d"
  using assms quotient_of_denom_pos [OF assms(2)] quotient_of_div [OF assms(2)]
  by (auto simp: zero_less_divide_iff)

lemma float_exponent_le:
  assumes "0 < x"
  shows "2 powi (float_exponent x) \<le> x"
proof -
  obtain n d where q: "quotient_of x = (n, d)" by (cases "quotient_of x")
  note p = quotient_of_pos [OF assms q]
  let ?k = "bitlen n - bitlen d"
  from assms have "\<bar>x\<bar> = x" by simp
  with q have fe: "float_exponent x = (if x < 2 powi ?k then ?k - 1 else ?k)"
    by (simp add: float_exponent_def Let_def)
  show ?thesis
  proof (cases "x < 2 powi ?k")
    case False
    with fe show ?thesis by simp
  next
    case True
    from bitlen_bounds [OF p(1)] have n: "(2::int) ^ nat (bitlen n - 1) \<le> n" by simp
    from bitlen_bounds [OF p(2)] have d: "d < (2::int) ^ nat (bitlen d)" by simp
    have bn: "1 \<le> bitlen n" using p(1) by (simp add: bitlen_alt_def)
    have bd: "1 \<le> bitlen d" using p(2) by (simp add: bitlen_alt_def)
    from n have n': "(2::rat) ^ nat (bitlen n - 1) \<le> of_int n"
      by (metis of_int_le_iff of_int_numeral of_int_power)
    from d have d': "(of_int d :: rat) \<le> 2 ^ nat (bitlen d)"
      by (metis less_imp_le of_int_le_iff of_int_numeral of_int_power)
    have "(2::rat) powi (?k - 1) = 2 powi (bitlen n - 1) / 2 powi (bitlen d)"
      using power_int_diff [of "2::rat" "bitlen n - 1" "bitlen d"] by (simp add: algebra_simps)
    also have "\<dots> = 2 ^ nat (bitlen n - 1) / 2 ^ nat (bitlen d)"
      using bn bd by (simp add: power_int_def)
    also have "\<dots> \<le> of_int n / of_int d"
      using n' d' p(1) p(2) by (intro frac_le) auto
    also have "\<dots> = x" by (simp only: p(3))
    finally have "2 powi (?k - 1) \<le> x" .
    with True fe show ?thesis by simp
  qed
qed

lemma fl_pos:
  assumes "0 < x"
  shows "0 < fl x"
proof -
  let ?e = "float_exponent x"
  let ?u = "(2::rat) powi (?e - 52)"
  have u: "0 < ?u" by simp
  have "(2::rat) ^ 52 * ?u = 2 powi ?e"
    by (simp add: power_int_diff)
  also have "\<dots> \<le> x" by (rule float_exponent_le [OF assms])
  finally have "2 ^ 52 \<le> x / ?u" using u by (simp add: pos_le_divide_eq)
  moreover have "(1::rat) \<le> 2 ^ 52" by simp
  ultimately have "1 \<le> x / ?u" by (rule order_trans [rotated])
  then have "0 < round_half_even (x / ?u)" by (rule round_half_even_pos)
  with u assms show ?thesis by (simp add: fl_def Let_def)
qed

lemma to_float_pos: "0 < i \<Longrightarrow> 0 < to_float i"
  by (simp add: to_float_def fl_pos)

lemma float_div_pos: "0 < b \<Longrightarrow> float_div a b = Inr (fl (a / b))"
  by (simp add: float_div_def)

lemma to_float_2: "to_float 2 = 2"
  by code_simp

lemma claimed_crop_box_400_300: "claimed_crop_box (400, 300) (256, 256) = (50, 0, 350, 300)"
  by code_simp

text \<open>
  C7. For a decoded image and a target box of valid sizes, \<open>scale_image\<close> raises
  nothing and returns the source cropped to the box the specification
  describes, then resized to exactly the target size (and converted to RGB when
  its mode is neither RGB nor RGBA); a 400x300 image and a 256x256 box give the
  crop box (50, 0, 350, 300), the centred 300x300 square.
\<close>

theorem scale_image_crops_then_resizes:
  assumes "img_size img = (src_width, src_height)"
    and "pixel_size (src_width, src_height)"
    and "pixel_size (dst_width, dst_height)"
  shows "scale_image (Some img) (dst_width, dst_height) =
           Inr (Some (if img_mode img \<in> {''RGB'', ''RGBA''}
                      then Resize (dst_width, dst_height)
                             (Crop (claimed_crop_box (src_width, src_height) (dst_width, dst_height)) img)
                      else Convert ''RGB'' (Resize (dst_width, dst_height)
                             (Crop (claimed_crop_box (src_width, src_height) (dst_width, dst_height)) img))))
         \<and> claimed_crop_box (400, 300) (256, 256) = (50, 0, 350, 300)"
proof -
  from assms(2) have sw: "0 < to_float src_width" and sh: "0 < to_float src_height"
    by (simp_all add: pixel_size_def to_float_pos)
  from assms(3) have dw: "0 < to_float dst_width" and dh: "0 < to_float dst_height"
    by (simp_all add: pixel_size_def to_float_pos)
  have sr: "float_div (to_float src_width) (to_float src_height)
      = Inr (fl (to_float src_width / to_float src_height))"
    by (rule float_div_pos [OF sh])
  have dr: "float_div (to_float dst_width) (to_float dst_height)
      = Inr (fl (to_float dst_width / to_float dst_height))"
    by (rule float_div_pos [OF dh])
  have dr_pos: "0 < fl (to_float dst_width / to_float dst_height)"
    using dw dh by (intro fl_pos divide_pos_pos)
  have by_ratio: "\<And>a. float_div a (fl (to_float dst_width / to_float dst_height))
      = Inr (fl (a / fl (to_float dst_width / to_float dst_height)))"
    by (rule float_div_pos [OF dr_pos])
  have halve: "\<And>a. float_div a (to_float 2) = Inr (fl (a / 2))"
    by (simp add: to_float_2 float_div_def)
  have "scale_image (Some img) (dst_width, dst_height) =
           Inr (Some (if img_mode img \<in> {''RGB'', ''RGBA''}
                      then Resize (dst_width, dst_height)
                             (Crop (claimed_crop_box (src_width, src_height) (dst_width, dst_height)) img)
                      else Convert ''RGB'' (Resize (dst_width, dst_height)
                             (Crop (claimed_crop_box (src_width, src_height) (dst_width, dst_height)) img))))"
    by (simp add: scale_image_def assms(1) sr dr by_ratio halve claimed_crop_box_def
        crop_resize_encode_def float_mul_def float_sub_def Let_def)
  then show ?thesis
    by (simp only: claimed_crop_box_400_300 simp_thms)
qed

theorem scale_image_400_300:
  "scale_image (Some (Source (400, 300) ''RGB'')) (256, 256) =
     Inr (Some (Resize (256, 256) (Crop (50, 0, 350, 300) (Source (400, 300) ''RGB''))))"
  using scale_image_crops_then_resizes [of "Source (400, 300) ''RGB''" 400 300 256 256]
  by (simp add: pixel_size_def claimed_crop_box_400_300)

end
